theory Spec2Isabelle
  imports Complex_Main "HOL-Library.Log_Nat"
begin

section \<open>Employee engagement comparison (task3\_compare\_engagement\_levels.py)\<close>

text \<open>
  The program is a PySpark batch job: load a CSV file, derive a numeric column from
  \<open>EngagementLevel\<close>, group by \<open>JobTitle\<close>, average, sort descending, write a CSV.
  Every function of the source is a short chain of calls into the Spark DataFrame API and
  into Python's \<open>os\<close> module, so the embedding consists of the source functions, one
  definition each, over a model of the library operations they call. The library
  operations are modelled by their documented meaning:
  \<^item> a DataFrame is the list of its rows; a nullable column is an \<open>option\<close>;
  \<^item> \<open>col == lit\<close> follows SQL's three-valued logic (null when the column is null) and
    \<open>when ... otherwise\<close> takes the first branch whose condition is true;
  \<^item> \<open>groupBy\<close> makes one group per distinct key, null being a key like any other;
  \<^item> \<open>avg\<close> skips nulls and is null when nothing is left;
  \<^item> \<open>orderBy(col.desc())\<close> sorts descending with nulls last.
  The average is a double in Spark. The model gives the rational number that this double
  denotes: the IEEE 754 binary64 quotient of the sum by the count, rounded to nearest
  with ties to even. The running sum of Spark is a double as well; it is exact as long
  as it stays below \<open>2^53\<close>, which sums of values from 1 to 3 do for every table of fewer
  than \<open>2^51\<close> rows, and the model takes the exact sum.
\<close>

subsection \<open>Data model\<close>

text \<open>The schema string of \<open>load_data\<close>: seven nullable columns.\<close>

record row =
  EmployeeID :: "int option"
  Department :: "string option"
  JobTitle :: "string option"
  SatisfactionRating :: "int option"
  EngagementLevel :: "string option"
  ReportsConcerns :: "bool option"
  ProvidedSuggestions :: "bool option"

text \<open>The table after \<open>withColumn("EngagementLevelNumeric", ...)\<close>.\<close>

record derived_row = row +
  EngagementLevelNumeric :: "int option"

text \<open>The table after \<open>groupBy("JobTitle").agg(avg(...).alias("AvgEngagementLevel"))\<close>.\<close>

record result_row =
  JobTitle :: "string option"
  AvgEngagementLevel :: "rat option"

subsection \<open>Column expressions\<close>

text \<open>\<open>col(c) == lit\<close>: null when the column is null.\<close>

fun sql_eq :: "string option \<Rightarrow> string \<Rightarrow> bool option" where
  "sql_eq None lit = None"
| "sql_eq (Some s) lit = Some (s = lit)"

text \<open>
  \<open>when(c1, v1).when(c2, v2)...otherwise(d)\<close>: the value of the first branch whose
  condition is true; a false or null condition moves on to the next branch.
\<close>

fun case_when :: "(bool option \<times> 'v option) list \<Rightarrow> 'v option \<Rightarrow> 'v option" where
  "case_when [] otherwise = otherwise"
| "case_when ((c, v) # branches) otherwise =
     (if c = Some True then v else case_when branches otherwise)"

text \<open>The column expression of lines 30 to 33.\<close>

definition engagement_level_numeric :: "'a row_scheme \<Rightarrow> int option" where
  "engagement_level_numeric r =
     case_when
       [(sql_eq (EngagementLevel r) ''Low'', Some 1),
        (sql_eq (EngagementLevel r) ''Medium'', Some 2),
        (sql_eq (EngagementLevel r) ''High'', Some 3)]
       None"

subsection \<open>Transformer\<close>

definition convert_engagement_to_numeric :: "row list \<Rightarrow> derived_row list" where
  "convert_engagement_to_numeric df =
     map (\<lambda>r. row.extend r (derived_row.fields (engagement_level_numeric r))) df"

subsection \<open>Aggregator\<close>

text \<open>The non-null values of a column.\<close>

fun present :: "'a option list \<Rightarrow> 'a list" where
  "present [] = []"
| "present (None # vs) = present vs"
| "present (Some v # vs) = v # present vs"

text \<open>Rounding to the nearest integer, a tie going to the even one.\<close>

definition round_half_even :: "rat \<Rightarrow> int" where
  "round_half_even x =
     (let f = \<lfloor>x\<rfloor>; d = x - rat_of_int f
      in if d < 1 / 2 then f
         else if 1 / 2 < d then f + 1
         else if even f then f else f + 1)"

text \<open>
  The binary exponent of the quotient of two positive integers: the \<open>e\<close> with
  \<open>2^e \<le> s / n < 2^(e + 1)\<close>. It is the difference of the bit lengths or one less.
\<close>

definition double_exponent :: "int \<Rightarrow> int \<Rightarrow> int" where
  "double_exponent s n =
     (let k = bitlen s - bitlen n
      in if power_int 2 k \<le> rat_of_int s / rat_of_int n then k else k - 1)"

text \<open>
  Division of doubles, for two doubles that are integers: the quotient is rounded to a
  significand of 53 bits, that is, to a multiple of \<open>2^(e - 52)\<close>. Integer quotients
  of this size are far from overflow and underflow. The divisor of \<open>avg\<close> is a count
  of at least one; for the divisor 0 the model gives 0.
\<close>

definition double_div :: "int \<Rightarrow> int \<Rightarrow> rat" where
  "double_div s n =
     (if s = 0 \<or> n = 0 then 0
      else let q = \<bar>rat_of_int s / rat_of_int n\<bar>;
               ulp = power_int 2 (double_exponent \<bar>s\<bar> \<bar>n\<bar> - 52)
           in sgn (rat_of_int s / rat_of_int n) * rat_of_int (round_half_even (q / ulp)) * ulp)"

text \<open>
  \<open>avg\<close> over one group: nulls are skipped; no value left gives null; otherwise the sum
  and the count, as doubles, are divided.
\<close>

definition avg :: "int option list \<Rightarrow> rat option" where
  "avg vs =
     (let xs = present vs
      in if xs = [] then None
         else Some (double_div (sum_list xs) (int (length xs))))"

text \<open>
  \<open>groupBy("JobTitle")\<close>: one group per distinct key, each with all the rows of that key.
  The order in which Spark enumerates the groups is not specified; the model takes the
  order of \<open>remdups\<close>.
\<close>

definition groupBy_JobTitle :: "derived_row list \<Rightarrow> (string option \<times> derived_row list) list" where
  "groupBy_JobTitle df =
     map (\<lambda>k. (k, filter (\<lambda>r. row.JobTitle r = k) df)) (remdups (map row.JobTitle df))"

definition agg_avg :: "(string option \<times> derived_row list) list \<Rightarrow> result_row list" where
  "agg_avg groups =
     map (\<lambda>(k, rs). \<lparr>JobTitle = k, AvgEngagementLevel = avg (map EngagementLevelNumeric rs)\<rparr>)
       groups"

text \<open>
  The order of \<open>col("AvgEngagementLevel").desc()\<close>: \<open>desc_nulls_last a b\<close> holds when a
  row with average \<open>a\<close> may stand before a row with average \<open>b\<close>.
\<close>

fun desc_nulls_last :: "rat option \<Rightarrow> rat option \<Rightarrow> bool" where
  "desc_nulls_last a None = True"
| "desc_nulls_last None (Some b) = False"
| "desc_nulls_last (Some a) (Some b) = (b \<le> a)"

fun insert_desc :: "result_row \<Rightarrow> result_row list \<Rightarrow> result_row list" where
  "insert_desc x [] = [x]"
| "insert_desc x (y # ys) =
     (if desc_nulls_last (AvgEngagementLevel x) (AvgEngagementLevel y) then x # y # ys
      else y # insert_desc x ys)"

text \<open>
  \<open>orderBy\<close> as an insertion sort. Spark does not fix the order among rows of equal
  average; the sort of the model gives one such order, and the general theorems below
  hold whichever it is. The model is a function: the same table gives the same result.
\<close>

definition orderBy_AvgEngagementLevel_desc :: "result_row list \<Rightarrow> result_row list" where
  "orderBy_AvgEngagementLevel_desc df = foldr insert_desc df []"

definition compare_engagement_levels :: "row list \<Rightarrow> result_row list" where
  "compare_engagement_levels df =
     (let df' = convert_engagement_to_numeric df;
          avg_engagement_df = agg_avg (groupBy_JobTitle df')
      in orderBy_AvgEngagementLevel_desc avg_engagement_df)"

subsection \<open>Files, console and session\<close>

text \<open>
  The loader, the writer and the driver act on the file system, on standard output and on
  the Spark session. These are the state; each function that touches them takes the state
  and returns the new one, together with \<open>Inl error\<close> where the Python raises.

  The file system maps a path, as the program writes it, to what is there. Paths are not
  normalised. What Spark's CSV writer leaves at a path is a directory of part files, one
  per partition of the table: the node \<open>CsvOutput\<close> holds their contents, a part file
  being its header line (when \<open>header=True\<close>) and its records. Part-file names, the
  marker and checksum files, and the rendering of a record as bytes are not modelled; the
  bytes of a part file are a function of its header and records.
\<close>

datatype py_error =
    FileNotFoundError string
  | FileExistsError string
  | NotADirectoryError string
  | Py4JJavaError string

record csv_file =
  header :: "string list option"
  records :: "result_row list"

datatype node =
    Directory
  | RegularFile string
  | CsvOutput "csv_file list"

datatype console_line = Line string | Preview "result_row list"

record world =
  fs :: "string \<rightharpoonup> node"
  stdout :: "console_line list"
  session_active :: bool

text \<open>A path made of slashes only is the root directory; it always exists.\<close>

definition is_root :: "string \<Rightarrow> bool" where
  "is_root p = (p \<noteq> [] \<and> list_all (\<lambda>c. c = CHR ''/'') p)"

text \<open>What is at a path. Nothing is at the empty path.\<close>

definition lookup :: "(string \<rightharpoonup> node) \<Rightarrow> string \<Rightarrow> node option" where
  "lookup files p = (if p = [] then None else if is_root p then Some Directory else files p)"

definition is_dir :: "node option \<Rightarrow> bool" where
  "is_dir n = (case n of Some Directory \<Rightarrow> True | Some (CsvOutput parts) \<Rightarrow> True | _ \<Rightarrow> False)"

text \<open>\<open>os.path.exists\<close>. It is false for the empty string.\<close>

definition path_exists :: "world \<Rightarrow> string \<Rightarrow> bool" where
  "path_exists w p = (lookup (fs w) p \<noteq> None)"

text \<open>
  \<open>os.path.dirname\<close> (posixpath): the path up to and including its last slash, with
  the trailing slashes removed unless nothing but slashes would remain. A path without a
  slash has the empty dirname.
\<close>

definition dirname :: "string \<Rightarrow> string" where
  "dirname p =
     (let head = rev (dropWhile (\<lambda>c. c \<noteq> CHR ''/'') (rev p))
      in if head \<noteq> [] \<and> \<not> list_all (\<lambda>c. c = CHR ''/'') head
         then rev (dropWhile (\<lambda>c. c = CHR ''/'') (rev head))
         else head)"

text \<open>
  \<open>os.mkdir\<close>: the empty name raises \<open>FileNotFoundError\<close>, an existing name raises
  \<open>FileExistsError\<close>, and the parent has to be a directory (the empty parent is the
  current directory).
\<close>

definition mkdir :: "string \<Rightarrow> (string \<rightharpoonup> node) \<Rightarrow> py_error + (string \<rightharpoonup> node)" where
  "mkdir name files =
     (if name = [] then Inl (FileNotFoundError name)
      else if lookup files name \<noteq> None then Inl (FileExistsError name)
      else if dirname name = [] \<or> is_dir (lookup files (dirname name))
        then Inr (files(name \<mapsto> Directory))
      else if lookup files (dirname name) = None then Inl (FileNotFoundError name)
      else Inl (NotADirectoryError name))"

text \<open>
  \<open>os.makedirs(name)\<close> with \<open>exist_ok=False\<close>: the missing ancestors first, from the
  top, then \<open>name\<close> itself. An error of a step is the error of the call.
\<close>

function makedirs :: "string \<Rightarrow> (string \<rightharpoonup> node) \<Rightarrow> py_error + (string \<rightharpoonup> node)" where
  "makedirs name files =
     (let head = dirname name
      in if head \<noteq> [] \<and> head \<noteq> name \<and> lookup files head = None
         then (case makedirs head files of
                 Inl e \<Rightarrow> Inl e
               | Inr files' \<Rightarrow> mkdir name files')
         else mkdir name files)"
  by pat_completeness auto
termination
proof (relation "measure (\<lambda>(name, files). length name)")
  show "wf (measure (\<lambda>(name, files). length name))" by simp
next
  fix name :: string and files :: "string \<rightharpoonup> node" and x
  assume x: "x = dirname name" and "x \<noteq> [] \<and> x \<noteq> name \<and> lookup files x = None"
  then have ne: "dirname name \<noteq> name" by simp
  have strip: "\<exists>n. rev (dropWhile P (rev xs)) = take n xs" for P and xs :: string
  proof -
    have "rev xs = takeWhile P (rev xs) @ dropWhile P (rev xs)" by simp
    then have "xs = rev (dropWhile P (rev xs)) @ rev (takeWhile P (rev xs))"
      by (metis rev_append rev_rev_ident)
    then have "take (length (rev (dropWhile P (rev xs)))) xs = rev (dropWhile P (rev xs))"
      by (metis append_eq_conv_conj)
    then show ?thesis by metis
  qed
  obtain n where h: "rev (dropWhile (\<lambda>c. c \<noteq> CHR ''/'') (rev name)) = take n name"
    using strip by blast
  obtain m where "rev (dropWhile (\<lambda>c. c = CHR ''/'') (rev (take n name))) = take m (take n name)"
    using strip by blast
  then have "\<exists>k. dirname name = take k name"
    unfolding dirname_def Let_def h by (metis take_take)
  then obtain k where k: "dirname name = take k name" ..
  with ne have "k < length name" by (metis not_le_imp_less take_all)
  with k have "length (dirname name) < length name" by simp
  with x show "((x, files), (name, files)) \<in> measure (\<lambda>(name, files). length name)" by simp
qed

declare makedirs.simps [simp del]

text \<open>\<open>under dir q\<close>: the path \<open>q\<close> lies inside the directory \<open>dir\<close>.\<close>

definition under :: "string \<Rightarrow> string \<Rightarrow> bool" where
  "under dir q = (take (Suc (length dir)) q = dir @ ''/'')"

text \<open>
  Save mode \<open>overwrite\<close>: whatever was at the path, and inside it, is removed, and the
  new output takes its place.
\<close>

definition overwrite :: "csv_file list \<Rightarrow> string \<Rightarrow> (string \<rightharpoonup> node) \<Rightarrow> (string \<rightharpoonup> node)" where
  "overwrite parts path files =
     (\<lambda>q. if q = path then Some (CsvOutput parts)
          else if under path q then None
          else files q)"

text \<open>\<open>coalesce(1)\<close>: the same rows in a single partition.\<close>

definition coalesce1 :: "'r list \<Rightarrow> 'r list list" where
  "coalesce1 df = [df]"

text \<open>The part files of a result table written with \<open>header=True\<close>: one per partition.\<close>

definition csv_parts :: "result_row list list \<Rightarrow> csv_file list" where
  "csv_parts partitions =
     map (\<lambda>rows. \<lparr>header = Some [''JobTitle'', ''AvgEngagementLevel''], records = rows\<rparr>)
       partitions"

text \<open>
  \<open>df.write.csv(path, header=True, mode="overwrite")\<close>. The writer creates missing parent
  directories itself; it fails when the path is empty or the root, or when the parent is
  not a directory.
\<close>

definition write_csv_overwrite ::
  "result_row list list \<Rightarrow> string \<Rightarrow> (string \<rightharpoonup> node) \<Rightarrow> py_error + (string \<rightharpoonup> node)" where
  "write_csv_overwrite partitions path files =
     (if path = [] \<or> is_root path then Inl (Py4JJavaError path)
      else case (if dirname path = [] \<or> lookup files (dirname path) \<noteq> None then Inr files
                 else makedirs (dirname path) files) of
             Inl e \<Rightarrow> Inl (Py4JJavaError path)
           | Inr files' \<Rightarrow>
               if dirname path \<noteq> [] \<and> \<not> is_dir (lookup files' (dirname path))
               then Inl (Py4JJavaError path)
               else Inr (overwrite (csv_parts partitions) path files'))"

subsection \<open>Loader, writer and driver\<close>

definition initialize_spark :: "world \<Rightarrow> world" where
  "initialize_spark w = w\<lparr>session_active := True\<rparr>"

text \<open>\<open>spark.stop()\<close>.\<close>

definition spark_stop :: "world \<Rightarrow> world" where
  "spark_stop w = w\<lparr>session_active := False\<rparr>"

definition print :: "string \<Rightarrow> world \<Rightarrow> world" where
  "print s w = w\<lparr>stdout := stdout w @ [Line s]\<rparr>"

text \<open>\<open>result_df.show()\<close>: a preview of the first 20 rows.\<close>

definition show_df :: "result_row list \<Rightarrow> world \<Rightarrow> world" where
  "show_df df w = w\<lparr>stdout := stdout w @ [Preview (take 20 df)]\<rparr>"

text \<open>
  \<open>load_data\<close>. The table that \<open>spark.read.csv\<close> makes of what is at the path is the
  parameter \<open>read_csv\<close>: the parsing of rows is the CSV reader's and is left open.
\<close>

definition load_data :: "(node option \<Rightarrow> row list) \<Rightarrow> world \<Rightarrow> string \<Rightarrow> py_error + row list" where
  "load_data read_csv w file_path =
     (if \<not> path_exists w file_path
      then Inl (FileNotFoundError
                  (''File not found: '' @ file_path @ ''. Please check the file path.''))
      else Inr (read_csv (lookup (fs w) file_path)))"

definition write_output :: "result_row list \<Rightarrow> string \<Rightarrow> world \<Rightarrow> (py_error + unit) \<times> world" where
  "write_output result_df output_path w =
     (let output_dir = dirname output_path
      in case (if \<not> path_exists w output_dir then makedirs output_dir (fs w) else Inr (fs w)) of
           Inl e \<Rightarrow> (Inl e, w)
         | Inr files \<Rightarrow>
             (case write_csv_overwrite (coalesce1 result_df) output_path files of
                Inl e \<Rightarrow> (Inl e, w\<lparr>fs := files\<rparr>)
              | Inr files' \<Rightarrow> (Inr (), w\<lparr>fs := files'\<rparr>)))"

definition input_file :: string where
  "input_file = ''/workspaces/spark-structured-api-employee-engagement-analysis-bhanukocherla/input/employee_data.csv''"

definition output_file :: string where
  "output_file = ''/workspaces/spark-structured-api-employee-engagement-analysis-bhanukocherla/outputs/task3/engagement_comparison.csv''"

text \<open>
  \<open>main\<close>. Only \<open>FileNotFoundError\<close> is caught; any other error leaves \<open>main\<close> as it was
  raised, before \<open>spark.stop()\<close>.
\<close>

definition main :: "(node option \<Rightarrow> row list) \<Rightarrow> world \<Rightarrow> (py_error + unit) \<times> world" where
  "main read_csv w =
     (let spark = initialize_spark w
      in case load_data read_csv spark input_file of
           Inl (FileNotFoundError e) \<Rightarrow> (Inr (), spark_stop (print e spark))
         | Inl err \<Rightarrow> (Inl err, spark)
         | Inr df \<Rightarrow>
             (let result_df = compare_engagement_levels df;
                  w1 = print ''Engagement Level Comparison Across Job Titles:'' spark;
                  w2 = show_df result_df w1
              in case write_output result_df output_file w2 of
                   (Inl err, w3) \<Rightarrow> (Inl err, w3)
                 | (Inr u, w3) \<Rightarrow>
                     (Inr (), spark_stop (print (''Results saved to '' @ output_file) w3))))"

text \<open>
  The exit status of the script: 0 when \<open>main\<close> returns, 1 when an exception leaves it.
\<close>

definition exit_code :: "py_error + unit \<Rightarrow> int" where
  "exit_code r = (case r of Inl err \<Rightarrow> 1 | Inr u \<Rightarrow> 0)"

subsection \<open>Vocabulary of the properties\<close>

text \<open>
  The numeric values that the rows of job title \<open>k\<close> contribute: the mapped value of each
  row of the input whose \<open>JobTitle\<close> is \<open>k\<close> and whose \<open>EngagementLevel\<close> is one of the
  three recognised strings.
\<close>

definition partition_values :: "row list \<Rightarrow> string option \<Rightarrow> int list" where
  "partition_values df k =
     concat (map (\<lambda>r. if row.JobTitle r = k
                      then (if EngagementLevel r = Some ''Low'' then [1]
                            else if EngagementLevel r = Some ''Medium'' then [2]
                            else if EngagementLevel r = Some ''High'' then [3]
                            else [])
                      else []) df)"

text \<open>
  The double that Spark's division gives for the mean of a list of integers; there is
  none for the empty list.
\<close>

definition double_mean :: "int list \<Rightarrow> rat option" where
  "double_mean vs =
     (if vs = [] then None else Some (double_div (sum_list vs) (int (length vs))))"

text \<open>
  The distinct job titles of the input that have at least one row whose
  \<open>EngagementLevel\<close> maps to a number.
\<close>

definition titles_with_value :: "row list \<Rightarrow> string option list" where
  "titles_with_value df =
     remdups (map row.JobTitle (filter (\<lambda>r. engagement_level_numeric r \<noteq> None) df))"

text \<open>An input row with all seven columns present.\<close>

definition employee :: "int \<Rightarrow> string \<Rightarrow> string \<Rightarrow> int \<Rightarrow> string \<Rightarrow> bool \<Rightarrow> bool \<Rightarrow> row" where
  "employee i d t s e c p =
     \<lparr>EmployeeID = Some i, Department = Some d, JobTitle = Some t, SatisfactionRating = Some s,
      EngagementLevel = Some e, ReportsConcerns = Some c, ProvidedSuggestions = Some p\<rparr>"

text \<open>
  The example table of the specification, with a fourth row whose \<open>EngagementLevel\<close>
  is not one of the three recognised strings.
\<close>

definition example_rows :: "row list" where
  "example_rows =
     [employee 1 ''Eng'' ''SWE'' 8 ''High'' False True,
      employee 2 ''Eng'' ''SWE'' 6 ''Low'' True False,
      employee 3 ''Eng'' ''PM'' 7 ''Medium'' False False,
      employee 4 ''Ops'' ''QA'' 5 ''Unknown'' False False]"

text \<open>Three rows of one job title whose mean, 5/3, is not a double.\<close>

definition example_thirds :: "row list" where
  "example_thirds =
     [employee 1 ''Eng'' ''SWE'' 8 ''Low'' False True,
      employee 2 ''Eng'' ''SWE'' 6 ''Medium'' True False,
      employee 3 ''Eng'' ''SWE'' 7 ''Medium'' False False]"

text \<open>A state with no file at all, nothing printed and no session.\<close>

definition empty_world :: world where
  "empty_world = \<lparr>fs = Map.empty, stdout = [], session_active = False\<rparr>"

section \<open>Properties of the transformer\<close>

lemma engagement_level_numeric_cases:
  "engagement_level_numeric r =
     (if EngagementLevel r = Some ''Low'' then Some 1
      else if EngagementLevel r = Some ''Medium'' then Some 2
      else if EngagementLevel r = Some ''High'' then Some 3
      else None)"
  by (cases "EngagementLevel r") (simp_all add: engagement_level_numeric_def)

lemma length_convert [simp]:
  "length (convert_engagement_to_numeric df) = length df"
  by (simp add: convert_engagement_to_numeric_def)

lemma nth_convert:
  "i < length df \<Longrightarrow>
   convert_engagement_to_numeric df ! i =
     row.extend (df ! i) (derived_row.fields (engagement_level_numeric (df ! i)))"
  by (simp add: convert_engagement_to_numeric_def)

lemma numeric_extend [simp]:
  "EngagementLevelNumeric (row.extend r (derived_row.fields x)) = x"
  by (simp add: row.defs derived_row.defs)

lemma JobTitle_extend [simp]:
  "row.JobTitle (row.extend r (derived_row.fields x)) = row.JobTitle r"
  by (simp add: row.defs derived_row.defs)

lemma truncate_extend [simp]:
  "row.truncate (row.extend r (derived_row.fields x)) = r"
  by (simp add: row.defs derived_row.defs)

text \<open>
  C1. In the table that \<open>convert_engagement_to_numeric\<close> returns, the i-th row carries
  \<open>EngagementLevelNumeric\<close> 1 when the i-th input row has \<open>EngagementLevel\<close> exactly
  "Low", 2 for "Medium", 3 for "High", and null for every other value, null included.
  The value is determined by the \<open>EngagementLevel\<close> of that row alone, and every row gets one.
\<close>

theorem convert_engagement_to_numeric_mapping:
  "length (convert_engagement_to_numeric df) = length df \<and>
   (\<forall>i < length df.
      let e = EngagementLevel (df ! i);
          n = EngagementLevelNumeric (convert_engagement_to_numeric df ! i)
      in (e = Some ''Low'' \<longrightarrow> n = Some 1) \<and>
         (e = Some ''Medium'' \<longrightarrow> n = Some 2) \<and>
         (e = Some ''High'' \<longrightarrow> n = Some 3) \<and>
         (e \<notin> {Some ''Low'', Some ''Medium'', Some ''High''} \<longrightarrow> n = None))"
  by (simp add: nth_convert engagement_level_numeric_cases Let_def)

theorem convert_engagement_to_numeric_mapping_witness:
  "EngagementLevelNumeric (convert_engagement_to_numeric example_rows ! 0) = Some 3 \<and>
   EngagementLevelNumeric (convert_engagement_to_numeric example_rows ! 1) = Some 1 \<and>
   EngagementLevelNumeric (convert_engagement_to_numeric example_rows ! 2) = Some 2 \<and>
   EngagementLevelNumeric (convert_engagement_to_numeric example_rows ! 3) = None"
  using convert_engagement_to_numeric_mapping [of example_rows]
  by (simp add: example_rows_def employee_def Let_def)

text \<open>
  C9. \<open>convert_engagement_to_numeric\<close> keeps the rows and the seven columns of its input:
  dropping the appended column from its result (\<open>row.truncate\<close>) gives the input table
  back, row for row, and each original column reads the same before and after.
\<close>

theorem convert_engagement_to_numeric_frame:
  "map row.truncate (convert_engagement_to_numeric df) = df \<and>
   map EmployeeID (convert_engagement_to_numeric df) = map EmployeeID df \<and>
   map Department (convert_engagement_to_numeric df) = map Department df \<and>
   map row.JobTitle (convert_engagement_to_numeric df) = map row.JobTitle df \<and>
   map SatisfactionRating (convert_engagement_to_numeric df) = map SatisfactionRating df \<and>
   map EngagementLevel (convert_engagement_to_numeric df) = map EngagementLevel df \<and>
   map ReportsConcerns (convert_engagement_to_numeric df) = map ReportsConcerns df \<and>
   map ProvidedSuggestions (convert_engagement_to_numeric df) = map ProvidedSuggestions df"
proof -
  have "map row.truncate (convert_engagement_to_numeric df) = df"
    by (simp add: convert_engagement_to_numeric_def comp_def)
  then show ?thesis
    by (simp add: convert_engagement_to_numeric_def comp_def row.defs derived_row.defs)
qed

section \<open>Properties of the aggregator\<close>

subsection \<open>The sort\<close>

lemma set_insert_desc: "set (insert_desc x ys) = insert x (set ys)"
  by (induction ys) auto

lemma length_insert_desc: "length (insert_desc x ys) = Suc (length ys)"
  by (induction ys) auto

lemma orderBy_Cons:
  "orderBy_AvgEngagementLevel_desc (x # xs) = insert_desc x (orderBy_AvgEngagementLevel_desc xs)"
  by (simp add: orderBy_AvgEngagementLevel_desc_def)

lemma orderBy_Nil: "orderBy_AvgEngagementLevel_desc [] = []"
  by (simp add: orderBy_AvgEngagementLevel_desc_def)

lemma set_orderBy: "set (orderBy_AvgEngagementLevel_desc xs) = set xs"
  by (induction xs) (simp_all add: orderBy_Nil orderBy_Cons set_insert_desc)

lemma length_orderBy: "length (orderBy_AvgEngagementLevel_desc xs) = length xs"
  by (induction xs) (simp_all add: orderBy_Nil orderBy_Cons length_insert_desc)

lemma desc_nulls_last_total: "desc_nulls_last a b \<or> desc_nulls_last b a"
  by (cases a; cases b) auto

lemma desc_nulls_last_trans:
  "desc_nulls_last a b \<Longrightarrow> desc_nulls_last b c \<Longrightarrow> desc_nulls_last a c"
  by (cases a; cases b; cases c) auto

lemma sorted_insert_desc:
  "sorted_wrt (\<lambda>a b. desc_nulls_last (AvgEngagementLevel a) (AvgEngagementLevel b)) ys \<Longrightarrow>
   sorted_wrt (\<lambda>a b. desc_nulls_last (AvgEngagementLevel a) (AvgEngagementLevel b))
     (insert_desc x ys)"
proof (induction ys)
  case Nil
  then show ?case by simp
next
  case (Cons y ys)
  show ?case
  proof (cases "desc_nulls_last (AvgEngagementLevel x) (AvgEngagementLevel y)")
    case True
    with Cons.prems show ?thesis by (auto intro: desc_nulls_last_trans)
  next
    case False
    then have "desc_nulls_last (AvgEngagementLevel y) (AvgEngagementLevel x)"
      using desc_nulls_last_total by blast
    with False Cons show ?thesis by (auto simp: set_insert_desc)
  qed
qed

lemma sorted_orderBy:
  "sorted_wrt (\<lambda>a b. desc_nulls_last (AvgEngagementLevel a) (AvgEngagementLevel b))
     (orderBy_AvgEngagementLevel_desc xs)"
  by (induction xs) (simp_all add: orderBy_Nil orderBy_Cons sorted_insert_desc)

lemma distinct_insert_desc:
  "distinct (map JobTitle (insert_desc x ys)) = distinct (map JobTitle (x # ys))"
  by (induction ys) (auto simp: set_insert_desc)

lemma distinct_orderBy:
  "distinct (map JobTitle (orderBy_AvgEngagementLevel_desc xs)) = distinct (map JobTitle xs)"
  by (induction xs) (simp_all add: orderBy_Nil orderBy_Cons distinct_insert_desc set_orderBy)

subsection \<open>Division of doubles\<close>

lemma round_half_even_cases: "round_half_even x = \<lfloor>x\<rfloor> \<or> round_half_even x = \<lfloor>x\<rfloor> + 1"
  by (simp add: round_half_even_def Let_def)

lemma round_half_even_ge: "rat_of_int a \<le> x \<Longrightarrow> a \<le> round_half_even x"
proof -
  assume "rat_of_int a \<le> x"
  then have "a \<le> \<lfloor>x\<rfloor>" by (simp add: le_floor_iff)
  with round_half_even_cases [of x] show ?thesis by auto
qed

lemma round_half_even_le:
  assumes "x \<le> rat_of_int b"
  shows "round_half_even x \<le> b"
proof (cases "x = rat_of_int \<lfloor>x\<rfloor>")
  case True
  then have "round_half_even x = \<lfloor>x\<rfloor>" by (simp add: round_half_even_def Let_def)
  moreover from assms have "\<lfloor>x\<rfloor> \<le> b" by (simp add: floor_le_iff)
  ultimately show ?thesis by simp
next
  case False
  moreover have "rat_of_int \<lfloor>x\<rfloor> \<le> x" by (rule of_int_floor_le)
  ultimately have "rat_of_int \<lfloor>x\<rfloor> < x" by (metis order_le_less)
  with assms have "rat_of_int \<lfloor>x\<rfloor> < rat_of_int b" by simp
  then have "\<lfloor>x\<rfloor> < b" by (simp only: of_int_less_iff)
  with round_half_even_cases [of x] show ?thesis by auto
qed

lemma round_half_even_error: "\<bar>rat_of_int (round_half_even x) - x\<bar> \<le> 1 / 2"
proof -
  have "rat_of_int \<lfloor>x\<rfloor> \<le> x" "x < rat_of_int \<lfloor>x\<rfloor> + 1" by linarith+
  then show ?thesis
    by (auto simp: round_half_even_def Let_def abs_le_iff)
qed

text \<open>The exponent is not above the quotient.\<close>

lemma double_exponent_le:
  assumes "0 < s" "0 < n"
  shows "power_int 2 (double_exponent s n) \<le> rat_of_int s / rat_of_int n"
proof (cases "power_int 2 (bitlen s - bitlen n) \<le> rat_of_int s / rat_of_int n")
  case True
  then show ?thesis by (simp add: double_exponent_def Let_def)
next
  case False
  from bitlen_bounds [OF assms(1)] have "2 ^ nat (bitlen s - 1) \<le> s" by simp
  then have "rat_of_int (2 ^ nat (bitlen s - 1)) \<le> rat_of_int s" by (simp only: of_int_le_iff)
  moreover have "1 \<le> bitlen s" using assms(1) by (auto simp: bitlen_alt_def)
  ultimately have s: "power_int 2 (bitlen s - 1) \<le> rat_of_int s"
    by (simp add: power_int_def)
  from bitlen_bounds [OF assms(2)] have "n < 2 ^ nat (bitlen n)" by simp
  then have "rat_of_int n < rat_of_int (2 ^ nat (bitlen n))" by (simp only: of_int_less_iff)
  moreover have "0 \<le> bitlen n" by (rule bitlen_nonneg)
  ultimately have n: "rat_of_int n \<le> power_int 2 (bitlen n)"
    by (simp add: power_int_def)
  have "power_int 2 (bitlen s - bitlen n - 1) =
          (power_int 2 (bitlen s - 1) :: rat) / power_int 2 (bitlen n)"
    using power_int_diff [of "2 :: rat" "bitlen s - 1" "bitlen n"] by (simp add: algebra_simps)
  also have "\<dots> \<le> rat_of_int s / power_int 2 (bitlen n)"
    using s by (simp add: divide_right_mono)
  also have "\<dots> \<le> rat_of_int s / rat_of_int n"
    using n assms by (simp add: frac_le)
  finally show ?thesis using False by (simp add: double_exponent_def Let_def)
qed

lemma double_div_pos:
  assumes "0 < s" "0 < n"
  shows "double_div s n =
           rat_of_int (round_half_even
              ((rat_of_int s / rat_of_int n) / power_int 2 (double_exponent s n - 52))) *
           power_int 2 (double_exponent s n - 52)"
  using assms by (simp add: double_div_def Let_def)

text \<open>Integer bounds of the quotient are bounds of the rounded quotient.\<close>

lemma double_div_bounds:
  assumes "0 < s" "0 < n"
    and lo: "rat_of_int a \<le> rat_of_int s / rat_of_int n"
    and hi: "rat_of_int s / rat_of_int n \<le> rat_of_int b"
    and small: "rat_of_int s / rat_of_int n < 2 ^ 53"
  shows "rat_of_int a \<le> double_div s n \<and> double_div s n \<le> rat_of_int b"
proof -
  define q where "q = rat_of_int s / rat_of_int n"
  define e where "e = double_exponent s n"
  define N :: int where "N = 2 ^ nat (52 - e)"
  have "power_int 2 e \<le> q" unfolding q_def e_def using assms(1,2) by (rule double_exponent_le)
  with small have "power_int (2 :: rat) e < power_int 2 53" by (simp add: q_def)
  then have e: "e < 53" by (rule power_int_le_imp_less_exp [rotated]) simp_all
  then have ulp: "power_int (2 :: rat) (e - 52) = 1 / rat_of_int N"
    using power_int_minus [of "2 :: rat" "52 - e"] by (simp add: N_def power_int_def field_simps)
  have Npos: "0 < rat_of_int N" by (simp add: N_def)
  have dd: "double_div s n = rat_of_int (round_half_even (q * rat_of_int N)) / rat_of_int N"
    using double_div_pos [OF assms(1,2)] by (simp add: q_def [symmetric] e_def [symmetric] ulp)
  from lo Npos have "rat_of_int (a * N) \<le> q * rat_of_int N"
    by (simp add: q_def [symmetric])
  then have "a * N \<le> round_half_even (q * rat_of_int N)" by (rule round_half_even_ge)
  then have "rat_of_int (a * N) \<le> rat_of_int (round_half_even (q * rat_of_int N))"
    by (simp only: of_int_le_iff)
  with Npos have 1: "rat_of_int a \<le> double_div s n"
    by (simp add: dd pos_le_divide_eq)
  from hi Npos have "q * rat_of_int N \<le> rat_of_int (b * N)"
    by (simp add: q_def [symmetric])
  then have "round_half_even (q * rat_of_int N) \<le> b * N" by (rule round_half_even_le)
  then have "rat_of_int (round_half_even (q * rat_of_int N)) \<le> rat_of_int (b * N)"
    by (simp only: of_int_le_iff)
  with Npos have 2: "double_div s n \<le> rat_of_int b"
    by (simp add: dd pos_divide_le_eq)
  from 1 2 show ?thesis ..
qed

text \<open>The rounded quotient is within half a unit in the last place of the quotient.\<close>

lemma double_div_error:
  assumes "0 < s" "0 < n"
  shows "\<bar>double_div s n - rat_of_int s / rat_of_int n\<bar>
           \<le> (rat_of_int s / rat_of_int n) / 2 ^ 53"
proof -
  define q where "q = rat_of_int s / rat_of_int n"
  define e where "e = double_exponent s n"
  define ulp :: rat where "ulp = power_int 2 (e - 52)"
  have ulp_pos: "0 < ulp" by (simp add: ulp_def)
  have le: "power_int 2 e \<le> q" unfolding q_def e_def using assms by (rule double_exponent_le)
  have "ulp = power_int 2 e / 2 ^ 52"
    using power_int_diff [of "2 :: rat" e 52] by (simp add: ulp_def)
  with le have ulp_le: "ulp \<le> q / 2 ^ 52" by (simp add: divide_right_mono)
  have dd: "double_div s n = rat_of_int (round_half_even (q / ulp)) * ulp"
    using double_div_pos [OF assms] by (simp add: q_def e_def ulp_def)
  have "double_div s n - q = (rat_of_int (round_half_even (q / ulp)) - q / ulp) * ulp"
    using ulp_pos by (simp add: dd algebra_simps)
  then have "\<bar>double_div s n - q\<bar> = \<bar>rat_of_int (round_half_even (q / ulp)) - q / ulp\<bar> * ulp"
    using ulp_pos by (simp add: abs_mult)
  also have "\<dots> \<le> (1 / 2) * ulp"
    using round_half_even_error [of "q / ulp"] ulp_pos by (intro mult_right_mono) simp_all
  also have "\<dots> \<le> (1 / 2) * (q / 2 ^ 52)"
    using ulp_le by simp
  also have "\<dots> = q / 2 ^ 53" by simp
  finally show ?thesis by (simp add: q_def)
qed

text \<open>The quotients of the examples.\<close>

lemma double_div_examples:
  "double_div 4 2 = 2"
  "double_div 2 1 = 2"
  "double_div 5 3 = 7505999378950827 / 4503599627370496"
  by code_simp+

subsection \<open>Grouping and averaging\<close>

lemma JobTitle_convert:
  "map row.JobTitle (convert_engagement_to_numeric df) = map row.JobTitle df"
  by (simp add: convert_engagement_to_numeric_def comp_def)

lemma present_group:
  "present (map EngagementLevelNumeric
      (filter (\<lambda>r. row.JobTitle r = k) (convert_engagement_to_numeric df)))
     = partition_values df k"
  by (induction df)
     (simp_all add: convert_engagement_to_numeric_def partition_values_def
        engagement_level_numeric_cases)

lemma partition_values_range: "set (partition_values df k) \<subseteq> {1, 2, 3}"
  by (induction df) (auto simp: partition_values_def)

lemma agg_groupBy_convert:
  "agg_avg (groupBy_JobTitle (convert_engagement_to_numeric df)) =
     map (\<lambda>k. \<lparr>JobTitle = k, AvgEngagementLevel = double_mean (partition_values df k)\<rparr>)
       (remdups (map row.JobTitle df))"
  by (simp add: agg_avg_def groupBy_JobTitle_def JobTitle_convert comp_def avg_def present_group
      Let_def double_mean_def)

lemma compare_set:
  "set (compare_engagement_levels df) =
     (\<lambda>k. \<lparr>JobTitle = k, AvgEngagementLevel = double_mean (partition_values df k)\<rparr>) `
       row.JobTitle ` set df"
  by (simp add: compare_engagement_levels_def Let_def set_orderBy agg_groupBy_convert image_image)

lemma compare_titles:
  "map JobTitle (agg_avg (groupBy_JobTitle (convert_engagement_to_numeric df))) =
     remdups (map row.JobTitle df)"
  by (simp add: agg_groupBy_convert comp_def)

lemma compare_row:
  "res \<in> set (compare_engagement_levels df) \<Longrightarrow>
   AvgEngagementLevel res = double_mean (partition_values df (JobTitle res)) \<and>
   JobTitle res \<in> row.JobTitle ` set df"
  by (auto simp: compare_set)

lemma sum_list_bounds:
  "set vs \<subseteq> {1, 2, 3} \<Longrightarrow> int (length vs) \<le> sum_list vs \<and> sum_list vs \<le> 3 * int (length vs)"
  by (induction vs) auto

lemma double_mean_bounds:
  assumes "set vs \<subseteq> {1, 2, 3}" and "double_mean vs = Some a"
  shows "1 \<le> a \<and> a \<le> 3"
proof -
  from assms(2) have ne: "vs \<noteq> []" and a: "a = double_div (sum_list vs) (int (length vs))"
    by (auto simp: double_mean_def split: if_splits)
  from ne have n: "0 < int (length vs)" by simp
  then have pos: "0 < rat_of_int (int (length vs))" by (simp only: of_int_0_less_iff)
  from sum_list_bounds [OF assms(1)]
  have le: "int (length vs) \<le> sum_list vs" and ge: "sum_list vs \<le> 3 * int (length vs)"
    by simp_all
  from le n have s: "0 < sum_list vs" by linarith
  from le have "rat_of_int (int (length vs)) \<le> rat_of_int (sum_list vs)"
    by (simp only: of_int_le_iff)
  with pos have lo: "rat_of_int 1 \<le> rat_of_int (sum_list vs) / rat_of_int (int (length vs))"
    by (simp add: pos_le_divide_eq)
  from ge have "rat_of_int (sum_list vs) \<le> rat_of_int (3 * int (length vs))"
    by (simp only: of_int_le_iff)
  with pos have hi: "rat_of_int (sum_list vs) / rat_of_int (int (length vs)) \<le> rat_of_int 3"
    by (simp add: pos_divide_le_eq)
  then have small: "rat_of_int (sum_list vs) / rat_of_int (int (length vs)) < 2 ^ 53"
    by simp
  from double_div_bounds [OF s n lo hi small] show ?thesis
    by (simp add: a)
qed

subsection \<open>The example table\<close>

lemma compare_example:
  "compare_engagement_levels example_rows =
     [\<lparr>JobTitle = Some ''SWE'', AvgEngagementLevel = Some 2\<rparr>,
      \<lparr>JobTitle = Some ''PM'', AvgEngagementLevel = Some 2\<rparr>,
      \<lparr>JobTitle = Some ''QA'', AvgEngagementLevel = None\<rparr>]"
  by (simp add: compare_engagement_levels_def example_rows_def employee_def Let_def
      convert_engagement_to_numeric_def groupBy_JobTitle_def agg_avg_def avg_def
      engagement_level_numeric_def orderBy_AvgEngagementLevel_desc_def row.defs derived_row.defs
      double_div_examples)

lemma compare_thirds:
  "compare_engagement_levels example_thirds =
     [\<lparr>JobTitle = Some ''SWE'',
       AvgEngagementLevel = Some (7505999378950827 / 4503599627370496)\<rparr>]"
  by (simp add: compare_engagement_levels_def example_thirds_def employee_def Let_def
      convert_engagement_to_numeric_def groupBy_JobTitle_def agg_avg_def avg_def
      engagement_level_numeric_def orderBy_AvgEngagementLevel_desc_def row.defs derived_row.defs
      double_div_examples)

lemma partition_values_thirds:
  "partition_values example_thirds (Some ''SWE'') = [1, 2, 2]"
  by (simp add: partition_values_def example_thirds_def employee_def)

lemma partition_values_example:
  "partition_values example_rows (Some ''SWE'') = [3, 1]"
  "partition_values example_rows (Some ''PM'') = [2]"
  "partition_values example_rows (Some ''QA'') = []"
  by (simp_all add: partition_values_def example_rows_def employee_def)

lemma titles_example:
  "row.JobTitle ` set example_rows = {Some ''SWE'', Some ''PM'', Some ''QA''}"
  by (simp add: example_rows_def employee_def)

lemma titles_with_value_example:
  "titles_with_value example_rows = [Some ''SWE'', Some ''PM'']"
  by (simp add: titles_with_value_def example_rows_def employee_def engagement_level_numeric_def)

subsection \<open>The claims\<close>

text \<open>
  C2, as the claim states it, fails on three rows of one job title with the levels Low,
  Medium and Medium: the arithmetic mean of 1, 2 and 2 is 5/3, and the
  \<open>AvgEngagementLevel\<close> of the result is the double 1.6666666666666667, which is
  7505999378950827 / 4503599627370496 and not 5/3.
\<close>

theorem mean_counterexample:
  "compare_engagement_levels example_thirds =
     [\<lparr>JobTitle = Some ''SWE'',
       AvgEngagementLevel = Some (7505999378950827 / 4503599627370496)\<rparr>] \<and>
   partition_values example_thirds (Some ''SWE'') = [1, 2, 2] \<and>
   rat_of_int (sum_list [1, 2, 2]) / rat_of_nat (length [1, 2, 2 :: int]) = 5 / 3 \<and>
   (7505999378950827 / 4503599627370496 :: rat) \<noteq> 5 / 3"
  by (simp add: compare_thirds partition_values_thirds)

text \<open>
  C2, amended. For every row of the result, the \<open>AvgEngagementLevel\<close> of its \<open>JobTitle\<close>
  is the double quotient of the sum by the count of the numeric values (each 1, 2 or 3) of
  exactly those input rows that have this \<open>JobTitle\<close> and a recognised \<open>EngagementLevel\<close>:
  the arithmetic mean of these values rounded to a double, which differs from the mean by
  at most the mean divided by \<open>2^53\<close>. Rows with an absent numeric value enter neither the
  sum nor the count. Where no row of the job title has a recognised level there is no
  mean, and the average is null.
\<close>

theorem compare_engagement_levels_double_mean:
  "res \<in> set (compare_engagement_levels df) \<Longrightarrow>
   vs = partition_values df (JobTitle res) \<Longrightarrow>
   mean = rat_of_int (sum_list vs) / rat_of_nat (length vs) \<Longrightarrow>
   set vs \<subseteq> {1, 2, 3} \<and>
   (vs \<noteq> [] \<longrightarrow>
      AvgEngagementLevel res = Some (double_div (sum_list vs) (int (length vs))) \<and>
      \<bar>double_div (sum_list vs) (int (length vs)) - mean\<bar> \<le> mean / 2 ^ 53) \<and>
   (vs = [] \<longrightarrow> AvgEngagementLevel res = None)"
proof -
  assume res: "res \<in> set (compare_engagement_levels df)"
    and vs: "vs = partition_values df (JobTitle res)"
    and mean: "mean = rat_of_int (sum_list vs) / rat_of_nat (length vs)"
  from vs have range: "set vs \<subseteq> {1, 2, 3}" by (simp add: partition_values_range)
  from compare_row [OF res] vs
  have avg: "AvgEngagementLevel res = double_mean vs" by simp
  have "\<bar>double_div (sum_list vs) (int (length vs)) - mean\<bar> \<le> mean / 2 ^ 53" if "vs \<noteq> []"
  proof -
    from that have n: "0 < int (length vs)" by simp
    with sum_list_bounds [OF range] have s: "0 < sum_list vs" by linarith
    from double_div_error [OF s n] show ?thesis by (simp add: mean)
  qed
  with range avg show ?thesis by (simp add: double_mean_def)
qed

theorem compare_engagement_levels_double_mean_witness:
  "\<lparr>JobTitle = Some ''SWE'', AvgEngagementLevel = Some (7505999378950827 / 4503599627370496)\<rparr>
     \<in> set (compare_engagement_levels example_thirds) \<and>
   partition_values example_thirds (Some ''SWE'') = [1, 2, 2] \<and>
   double_div (sum_list [1, 2, 2]) (int (length [1, 2, 2 :: int]))
     = 7505999378950827 / 4503599627370496 \<and>
   \<bar>7505999378950827 / 4503599627370496 - 5 / 3 :: rat\<bar> \<le> (5 / 3) / 2 ^ 53"
  using compare_engagement_levels_double_mean
    [of "\<lparr>JobTitle = Some ''SWE'',
          AvgEngagementLevel = Some (7505999378950827 / 4503599627370496)\<rparr>"
        example_thirds "[1, 2, 2]" "5 / 3"]
  by (simp add: compare_thirds partition_values_thirds double_div_examples)

text \<open>
  C3, as the claim states it, fails on the example table: the result has three rows, one
  of them for the job title QA, whose only row has the unrecognised level "Unknown",
  while only two job titles have a row with a recognised level.
\<close>

theorem row_count_counterexample:
  "length (compare_engagement_levels example_rows) = 3 \<and>
   length (titles_with_value example_rows) = 2 \<and>
   \<lparr>JobTitle = Some ''QA'', AvgEngagementLevel = None\<rparr>
     \<in> set (compare_engagement_levels example_rows)"
  by (simp add: compare_example titles_with_value_example)

text \<open>
  C3, amended. The number of result rows is the number of distinct \<open>JobTitle\<close> values of
  the input, whether or not any of their rows has a recognised \<open>EngagementLevel\<close>; a job
  title all of whose rows have an unrecognised level is in the result, with a null
  \<open>AvgEngagementLevel\<close>.
\<close>

theorem row_count_distinct_titles:
  "length (compare_engagement_levels df) = card (row.JobTitle ` set df) \<and>
   (\<forall>k \<in> row.JobTitle ` set df.
      partition_values df k = [] \<longrightarrow>
        \<lparr>JobTitle = k, AvgEngagementLevel = None\<rparr> \<in> set (compare_engagement_levels df))"
proof
  show "length (compare_engagement_levels df) = card (row.JobTitle ` set df)"
    by (simp add: compare_engagement_levels_def Let_def length_orderBy agg_groupBy_convert
        length_remdups_card_conv)
  show "\<forall>k \<in> row.JobTitle ` set df.
      partition_values df k = [] \<longrightarrow>
        \<lparr>JobTitle = k, AvgEngagementLevel = None\<rparr> \<in> set (compare_engagement_levels df)"
    by (auto simp: compare_set double_mean_def image_iff)
qed

theorem row_count_distinct_titles_witness:
  "length (compare_engagement_levels example_rows) = card {Some ''SWE'', Some ''PM'', Some ''QA''} \<and>
   Some ''QA'' \<in> row.JobTitle ` set example_rows \<and>
   partition_values example_rows (Some ''QA'') = [] \<and>
   \<lparr>JobTitle = Some ''QA'', AvgEngagementLevel = None\<rparr>
     \<in> set (compare_engagement_levels example_rows)"
  using row_count_distinct_titles [of example_rows]
  by (simp add: titles_example partition_values_example)

text \<open>
  C4. The result has exactly one row for each distinct \<open>JobTitle\<close> value of the input: the
  job titles of the result are pairwise different and are those of the input. A job title
  none of whose rows has a present numeric value has a row all the same, and its
  \<open>AvgEngagementLevel\<close> is null, not zero.
\<close>

theorem one_row_per_job_title:
  "distinct (map JobTitle (compare_engagement_levels df)) \<and>
   set (map JobTitle (compare_engagement_levels df)) = row.JobTitle ` set df \<and>
   (\<forall>res \<in> set (compare_engagement_levels df).
      partition_values df (JobTitle res) = [] \<longrightarrow>
        AvgEngagementLevel res = None \<and> AvgEngagementLevel res \<noteq> Some 0)"
proof (intro conjI ballI impI)
  show "distinct (map JobTitle (compare_engagement_levels df))"
    by (simp add: compare_engagement_levels_def Let_def distinct_orderBy compare_titles)
  show "set (map JobTitle (compare_engagement_levels df)) = row.JobTitle ` set df"
    by (simp add: compare_set image_image)
next
  fix res
  assume "res \<in> set (compare_engagement_levels df)" "partition_values df (JobTitle res) = []"
  then show "AvgEngagementLevel res = None" "AvgEngagementLevel res \<noteq> Some 0"
    using compare_row [of res df] by (simp_all add: double_mean_def)
qed

theorem one_row_per_job_title_witness:
  "map JobTitle (compare_engagement_levels example_rows) = [Some ''SWE'', Some ''PM'', Some ''QA''] \<and>
   set (map JobTitle (compare_engagement_levels example_rows)) = row.JobTitle ` set example_rows \<and>
   \<lparr>JobTitle = Some ''QA'', AvgEngagementLevel = None\<rparr>
     \<in> set (compare_engagement_levels example_rows) \<and>
   partition_values example_rows (Some ''QA'') = []"
  using one_row_per_job_title [of example_rows]
  by (simp add: compare_example partition_values_example titles_example)

text \<open>
  C5. The rows of the result stand in descending order of \<open>AvgEngagementLevel\<close>, null
  averages last: each row may stand before every later row in the order of
  \<open>desc()\<close>, and of two present averages the earlier is at least the later.
\<close>

theorem result_sorted_descending:
  "sorted_wrt (\<lambda>a b. desc_nulls_last (AvgEngagementLevel a) (AvgEngagementLevel b))
     (compare_engagement_levels df) \<and>
   (\<forall>i j a b.
      i < j \<and> j < length (compare_engagement_levels df) \<and>
      AvgEngagementLevel (compare_engagement_levels df ! i) = Some a \<and>
      AvgEngagementLevel (compare_engagement_levels df ! j) = Some b \<longrightarrow> b \<le> a)"
proof
  show sorted: "sorted_wrt (\<lambda>a b. desc_nulls_last (AvgEngagementLevel a) (AvgEngagementLevel b))
     (compare_engagement_levels df)"
    by (simp add: compare_engagement_levels_def Let_def sorted_orderBy)
  show "\<forall>i j a b.
      i < j \<and> j < length (compare_engagement_levels df) \<and>
      AvgEngagementLevel (compare_engagement_levels df ! i) = Some a \<and>
      AvgEngagementLevel (compare_engagement_levels df ! j) = Some b \<longrightarrow> b \<le> a"
  proof (intro allI impI)
    fix i j a b
    assume h: "i < j \<and> j < length (compare_engagement_levels df) \<and>
      AvgEngagementLevel (compare_engagement_levels df ! i) = Some a \<and>
      AvgEngagementLevel (compare_engagement_levels df ! j) = Some b"
    from sorted have "\<forall>i j. i < j \<longrightarrow> j < length (compare_engagement_levels df) \<longrightarrow>
        desc_nulls_last (AvgEngagementLevel (compare_engagement_levels df ! i))
          (AvgEngagementLevel (compare_engagement_levels df ! j))"
      by (simp add: sorted_wrt_iff_nth_less)
    with h have "desc_nulls_last (AvgEngagementLevel (compare_engagement_levels df ! i))
        (AvgEngagementLevel (compare_engagement_levels df ! j))"
      by blast
    with h show "b \<le> a" by simp
  qed
qed

theorem result_sorted_descending_witness:
  "(0::nat) < 1 \<and> 1 < length (compare_engagement_levels example_rows) \<and>
   AvgEngagementLevel (compare_engagement_levels example_rows ! 0) = Some 2 \<and>
   AvgEngagementLevel (compare_engagement_levels example_rows ! 1) = Some 2 \<and>
   AvgEngagementLevel (compare_engagement_levels example_rows ! 2) = None \<and>
   (2 :: rat) \<le> 2"
  using result_sorted_descending [of example_rows]
  by (simp add: compare_example)

text \<open>
  C10. Every present \<open>AvgEngagementLevel\<close> of the result lies between 1 and 3, both
  included.
\<close>

theorem average_between_1_and_3:
  "res \<in> set (compare_engagement_levels df) \<Longrightarrow> AvgEngagementLevel res = Some a \<Longrightarrow>
   1 \<le> a \<and> a \<le> 3"
  using compare_row [of res df] partition_values_range [of df "JobTitle res"] double_mean_bounds
  by metis

theorem average_between_1_and_3_witness:
  "\<lparr>JobTitle = Some ''PM'', AvgEngagementLevel = Some 2\<rparr>
     \<in> set (compare_engagement_levels example_rows) \<and>
   (1 :: rat) \<le> 2 \<and> (2 :: rat) \<le> 3"
  using average_between_1_and_3
    [of "\<lparr>JobTitle = Some ''PM'', AvgEngagementLevel = Some 2\<rparr>" example_rows 2]
  by (simp add: compare_example)

section \<open>Properties of the loader and the driver\<close>

lemma main_missing:
  "\<not> path_exists w input_file \<Longrightarrow>
   main read_csv w =
     (Inr (),
      w\<lparr>stdout := stdout w @
           [Line (''File not found: '' @ input_file @ ''. Please check the file path.'')],
        session_active := False\<rparr>)"
  by (simp add: load_data_def main_def Let_def print_def spark_stop_def initialize_spark_def
      path_exists_def)

text \<open>
  C6. \<open>load_data\<close> raises \<open>FileNotFoundError\<close> exactly when the path does not exist, and
  the message of the error carries the path. When the input path of \<open>main\<close> does not
  exist, \<open>main\<close> returns normally (exit status 0) and leaves the state as it found it
  but for one printed line, the message of the error, and the stopped session: nothing
  else is printed, so no later stage ran, and the file system is unchanged, so no output
  was created or modified.
\<close>

theorem missing_input_file:
  "((\<exists>msg. load_data read_csv w p = Inl (FileNotFoundError msg)) \<longleftrightarrow> \<not> path_exists w p) \<and>
   (\<not> path_exists w p \<longrightarrow>
      load_data read_csv w p =
        Inl (FileNotFoundError (''File not found: '' @ p @ ''. Please check the file path.''))) \<and>
   (\<not> path_exists w input_file \<longrightarrow>
      main read_csv w =
        (Inr (),
         w\<lparr>stdout := stdout w @
              [Line (''File not found: '' @ input_file @ ''. Please check the file path.'')],
           session_active := False\<rparr>) \<and>
      exit_code (fst (main read_csv w)) = 0 \<and>
      fs (snd (main read_csv w)) = fs w)"
  by (simp add: main_missing exit_code_def) (simp add: load_data_def)

theorem missing_input_file_witness:
  "\<not> path_exists empty_world input_file \<and>
   load_data (\<lambda>n. []) empty_world input_file =
     Inl (FileNotFoundError
            (''File not found: '' @ input_file @ ''. Please check the file path.'')) \<and>
   main (\<lambda>n. []) empty_world =
     (Inr (),
      \<lparr>fs = Map.empty,
       stdout = [Line (''File not found: '' @ input_file @ ''. Please check the file path.'')],
       session_active = False\<rparr>) \<and>
   exit_code (fst (main (\<lambda>n. []) empty_world)) = 0"
proof -
  have missing: "\<not> path_exists empty_world input_file"
    by (simp add: empty_world_def path_exists_def lookup_def is_root_def input_file_def)
  from missing_input_file [of "\<lambda>n. []" empty_world input_file] missing
  show ?thesis by (simp add: empty_world_def exit_code_def)
qed

section \<open>Properties of the writer\<close>

subsection \<open>Directories\<close>

lemma strip_take: "\<exists>n. rev (dropWhile P (rev xs)) = take n xs"
proof -
  have "rev xs = takeWhile P (rev xs) @ dropWhile P (rev xs)" by simp
  then have "xs = rev (dropWhile P (rev xs)) @ rev (takeWhile P (rev xs))"
    by (metis rev_append rev_rev_ident)
  then have "take (length (rev (dropWhile P (rev xs)))) xs = rev (dropWhile P (rev xs))"
    by (metis append_eq_conv_conj)
  then show ?thesis by metis
qed

lemma dirname_take: "\<exists>k. dirname p = take k p"
proof -
  obtain n where h: "rev (dropWhile (\<lambda>c. c \<noteq> CHR ''/'') (rev p)) = take n p"
    using strip_take by blast
  obtain m where "rev (dropWhile (\<lambda>c. c = CHR ''/'') (rev (take n p))) = take m (take n p)"
    using strip_take by blast
  then show ?thesis
    unfolding dirname_def Let_def h by (metis take_take)
qed

lemma dirname_not_under: "\<not> under p (dirname p)"
proof -
  obtain k where "dirname p = take k p" using dirname_take by blast
  then have "length (dirname p) \<le> length p" by simp
  moreover have "length (dirname p) \<ge> Suc (length p)" if "under p (dirname p)"
  proof -
    from that have "length (take (Suc (length p)) (dirname p)) = length (p @ ''/'')"
      by (simp only: under_def)
    then show ?thesis by simp
  qed
  ultimately show ?thesis by fastforce
qed

lemma lookup_upd_other: "p \<noteq> name \<Longrightarrow> lookup (files(name \<mapsto> n)) p = lookup files p"
  by (simp add: lookup_def)

lemma is_dir_exists: "is_dir n \<Longrightarrow> n \<noteq> None"
  by (cases n) (simp_all add: is_dir_def)

lemma mkdir_Inr:
  "mkdir name files = Inr files' \<Longrightarrow>
   files' = files(name \<mapsto> Directory) \<and> lookup files name = None \<and> name \<noteq> []"
  by (auto simp: mkdir_def split: if_splits)

lemma mkdir_creates: "mkdir name files = Inr files' \<Longrightarrow> lookup files' name = Some Directory"
  by (auto simp: mkdir_def lookup_def split: if_splits)

lemma mkdir_preserves:
  assumes "mkdir name files = Inr files'" and "lookup files p \<noteq> None"
  shows "lookup files' p = lookup files p"
proof -
  from mkdir_Inr [OF assms(1)]
  have upd: "files' = files(name \<mapsto> Directory)" and "lookup files name = None" by simp_all
  with assms(2) have "p \<noteq> name" by auto
  with upd show ?thesis by (simp add: lookup_upd_other)
qed

lemma makedirs_unfold:
  "makedirs name files =
     (if dirname name \<noteq> [] \<and> dirname name \<noteq> name \<and> lookup files (dirname name) = None
      then (case makedirs (dirname name) files of
              Inl e \<Rightarrow> Inl e
            | Inr files' \<Rightarrow> mkdir name files')
      else mkdir name files)"
  by (subst makedirs.simps) (simp only: Let_def)

text \<open>\<open>makedirs\<close> adds directories and changes nothing that was there.\<close>

lemma makedirs_preserves:
  "makedirs name files = Inr files' \<Longrightarrow> lookup files p \<noteq> None \<Longrightarrow>
   lookup files' p = lookup files p"
proof (induction name files arbitrary: files' rule: makedirs.induct)
  case (1 name files)
  show ?case
  proof (cases "dirname name \<noteq> [] \<and> dirname name \<noteq> name \<and> lookup files (dirname name) = None")
    case True
    with "1.prems"(1) obtain f1 where f1: "makedirs (dirname name) files = Inr f1"
      and mk: "mkdir name f1 = Inr files'"
      by (subst (asm) makedirs_unfold) (auto split: sum.splits)
    from "1.IH" [OF refl True f1 "1.prems"(2)] have "lookup f1 p = lookup files p" .
    with mkdir_preserves [OF mk, of p] "1.prems"(2) show ?thesis by simp
  next
    case False
    with "1.prems"(1) have "mkdir name files = Inr files'"
      by (subst (asm) makedirs_unfold) auto
    with "1.prems"(2) show ?thesis by (rule mkdir_preserves [rotated])
  qed
qed

lemma makedirs_creates:
  "makedirs name files = Inr files' \<Longrightarrow> lookup files' name = Some Directory"
  by (subst (asm) makedirs_unfold) (auto simp: mkdir_creates split: sum.splits if_splits)

subsection \<open>The CSV writer\<close>

lemma overwrite_idem:
  "overwrite parts path (overwrite parts path files) = overwrite parts path files"
  by (auto simp: overwrite_def)

lemma lookup_overwrite_other:
  "p \<noteq> path \<Longrightarrow> \<not> under path p \<Longrightarrow> lookup (overwrite parts path files) p = lookup files p"
  by (simp add: lookup_def overwrite_def)

lemma lookup_overwrite_path:
  "path \<noteq> [] \<Longrightarrow> \<not> is_root path \<Longrightarrow>
   lookup (overwrite parts path files) path = Some (CsvOutput parts)"
  by (simp add: lookup_def overwrite_def)

lemma lookup_overwrite_dirname:
  assumes "path \<noteq> []" "\<not> is_root path" "is_dir (lookup files (dirname path))"
  shows "is_dir (lookup (overwrite parts path files) (dirname path))"
proof (cases "dirname path = path")
  case True
  with assms show ?thesis by (simp add: overwrite_def lookup_def is_dir_def)
next
  case False
  with dirname_not_under [of path]
  have "overwrite parts path files (dirname path) = files (dirname path)"
    by (simp add: overwrite_def)
  then have "lookup (overwrite parts path files) (dirname path) = lookup files (dirname path)"
    by (simp add: lookup_def)
  with assms(3) show ?thesis by simp
qed

lemma write_csv_parent_exists:
  "dirname path = [] \<or> lookup files (dirname path) \<noteq> None \<Longrightarrow>
   write_csv_overwrite partitions path files =
     (if path = [] \<or> is_root path \<or>
         (dirname path \<noteq> [] \<and> \<not> is_dir (lookup files (dirname path)))
      then Inl (Py4JJavaError path)
      else Inr (overwrite (csv_parts partitions) path files))"
  by (auto simp: write_csv_overwrite_def)

lemma write_csv_idem:
  assumes ex: "lookup files (dirname out) \<noteq> None"
    and ok: "write_csv_overwrite parts out files = Inr files'"
  shows "lookup files' (dirname out) \<noteq> None \<and> write_csv_overwrite parts out files' = Inr files'"
proof -
  from ex have nonempty: "dirname out \<noteq> []" by (auto simp: lookup_def)
  from ok ex nonempty have out: "out \<noteq> []" "\<not> is_root out"
    and dir: "is_dir (lookup files (dirname out))"
    and files': "files' = overwrite (csv_parts parts) out files"
    by (auto simp: write_csv_parent_exists split: if_splits)
  from lookup_overwrite_dirname [OF out dir]
  have dir': "is_dir (lookup files' (dirname out))" by (simp add: files')
  then have ex': "lookup files' (dirname out) \<noteq> None" by (rule is_dir_exists)
  then have "write_csv_overwrite parts out files' = Inr (overwrite (csv_parts parts) out files')"
    using out dir' by (simp add: write_csv_parent_exists)
  with ex' show ?thesis by (simp add: files' overwrite_idem)
qed

lemma write_csv_preserves:
  assumes "write_csv_overwrite parts out files = Inr files'"
    and "lookup files p \<noteq> None" and "p \<noteq> out" and "\<not> under out p"
  shows "lookup files' p = lookup files p"
proof (cases "dirname out = [] \<or> lookup files (dirname out) \<noteq> None")
  case True
  with assms(1) have "files' = overwrite (csv_parts parts) out files"
    by (auto simp: write_csv_parent_exists split: if_splits)
  with assms(3,4) show ?thesis by (simp add: lookup_overwrite_other)
next
  case False
  with assms(1) obtain f1 where mk: "makedirs (dirname out) files = Inr f1"
    and "files' = overwrite (csv_parts parts) out f1"
    by (auto simp: write_csv_overwrite_def split: if_splits sum.splits)
  with assms(3,4) have "lookup files' p = lookup f1 p" by (simp add: lookup_overwrite_other)
  with makedirs_preserves [OF mk assms(2)] show ?thesis by simp
qed

subsection \<open>\<open>write_output\<close>\<close>

text \<open>The result and the files that \<open>write_output\<close> leaves depend on the files only.\<close>

lemma write_output_cong:
  "fs w = fs v \<Longrightarrow>
   fst (write_output df out w) = fst (write_output df out v) \<and>
   fs (snd (write_output df out w)) = fs (snd (write_output df out v))"
  by (simp add: write_output_def path_exists_def Let_def split: sum.splits)

text \<open>
  Where \<open>write_output\<close> returns, the output path holds the output of one write: a single
  part file with the header line and all the rows of the table, whatever was there
  before, and its parent directory exists.
\<close>

lemma write_output_returns:
  assumes "write_output df out w = (Inr (), w')"
  shows "lookup (fs w') out =
           Some (CsvOutput [\<lparr>header = Some [''JobTitle'', ''AvgEngagementLevel''], records = df\<rparr>]) \<and>
         is_dir (lookup (fs w') (dirname out))"
proof -
  from assms obtain files1 files2
    where dirs: "(if \<not> path_exists w (dirname out) then makedirs (dirname out) (fs w)
                  else Inr (fs w)) = Inr files1"
      and wr: "write_csv_overwrite (coalesce1 df) out files1 = Inr files2"
      and w': "w' = w\<lparr>fs := files2\<rparr>"
    by (auto simp: write_output_def Let_def split: sum.splits)
  from dirs have ex: "lookup files1 (dirname out) \<noteq> None"
    using makedirs_creates [of "dirname out" "fs w" files1]
    by (auto simp: path_exists_def split: if_splits)
  then have nonempty: "dirname out \<noteq> []" by (auto simp: lookup_def)
  from wr ex nonempty have out: "out \<noteq> []" "\<not> is_root out"
    and dir: "is_dir (lookup files1 (dirname out))"
    and files2: "files2 = overwrite (csv_parts (coalesce1 df)) out files1"
    by (auto simp: write_csv_parent_exists split: if_splits)
  from lookup_overwrite_path [OF out] lookup_overwrite_dirname [OF out dir]
  show ?thesis by (simp add: w' files2 csv_parts_def coalesce1_def)
qed

text \<open>
  C7, the code at the input where it leaves the claim. For an output path without a
  directory part, such as \<open>out.csv\<close>, the parent directory is the current directory
  and exists, so the writer is to write its single CSV file there. The code computes the
  empty \<open>dirname\<close>, finds that \<open>os.path.exists("")\<close> is false and calls
  \<open>os.makedirs("")\<close>, which raises \<open>FileNotFoundError\<close>: nothing is written, for any
  table and any state.
\<close>

theorem write_output_bare_filename:
  "dirname ''out.csv'' = [] \<and>
   write_output result_df ''out.csv'' w = (Inl (FileNotFoundError []), w)"
  by (simp add: write_output_def dirname_def path_exists_def lookup_def makedirs_unfold
      mkdir_def Let_def)

subsection \<open>Running the pipeline twice\<close>

lemma write_output_idem:
  assumes "write_output df out w = (r, w')"
  shows "write_output df out w' = (r, w')"
proof (cases "path_exists w (dirname out)")
  case True
  then have ex: "lookup (fs w) (dirname out) \<noteq> None" by (simp add: path_exists_def)
  show ?thesis
  proof (cases "write_csv_overwrite (coalesce1 df) out (fs w)")
    case (Inl e)
    with True assms have "w' = w" "r = Inl e" by (auto simp: write_output_def Let_def)
    with assms show ?thesis by simp
  next
    case (Inr files')
    with True assms have w': "w' = w\<lparr>fs := files'\<rparr>" and r: "r = Inr ()"
      by (auto simp: write_output_def Let_def)
    from write_csv_idem [OF ex Inr]
    show ?thesis by (auto simp: write_output_def Let_def path_exists_def w' r)
  qed
next
  case False
  show ?thesis
  proof (cases "makedirs (dirname out) (fs w)")
    case (Inl e)
    with False assms have "w' = w" by (auto simp: write_output_def Let_def)
    with assms show ?thesis by simp
  next
    case (Inr files1)
    then have ex1: "lookup files1 (dirname out) \<noteq> None"
      using makedirs_creates [of "dirname out" "fs w" files1] by simp
    show ?thesis
    proof (cases "write_csv_overwrite (coalesce1 df) out files1")
      case (Inl e)
      with False Inr assms have w': "w' = w\<lparr>fs := files1\<rparr>" and r: "r = Inl e"
        by (auto simp: write_output_def Let_def)
      with ex1 Inl show ?thesis
        by (auto simp: write_output_def Let_def path_exists_def)
    next
      case Inr2: (Inr files2)
      with False Inr assms have w': "w' = w\<lparr>fs := files2\<rparr>" and r: "r = Inr ()"
        by (auto simp: write_output_def Let_def)
      from write_csv_idem [OF ex1 Inr2]
      show ?thesis by (auto simp: write_output_def Let_def path_exists_def w' r)
    qed
  qed
qed

lemma write_output_preserves:
  assumes "lookup (fs w) p \<noteq> None" and "p \<noteq> out" and "\<not> under out p"
  shows "lookup (fs (snd (write_output df out w))) p = lookup (fs w) p"
proof -
  define files1 where
    "files1 = (if \<not> path_exists w (dirname out) then makedirs (dirname out) (fs w) else Inr (fs w))"
  show ?thesis
  proof (cases files1)
    case (Inl e)
    then show ?thesis by (simp add: write_output_def Let_def files1_def [symmetric])
  next
    case (Inr f1)
    then have f1: "lookup f1 p = lookup (fs w) p"
      using makedirs_preserves [of "dirname out" "fs w" f1 p] assms(1)
      by (auto simp: files1_def split: if_splits)
    show ?thesis
    proof (cases "write_csv_overwrite (coalesce1 df) out f1")
      case Inl2: (Inl e)
      with Inr f1 show ?thesis by (simp add: write_output_def Let_def files1_def [symmetric])
    next
      case Inr2: (Inr f2)
      from write_csv_preserves [OF Inr2 _ assms(2,3)] f1 assms(1)
      have "lookup f2 p = lookup (fs w) p" by simp
      with Inr Inr2 show ?thesis by (simp add: write_output_def Let_def files1_def [symmetric])
    qed
  qed
qed

text \<open>The input file is neither the output path nor inside it.\<close>

lemma input_not_output: "input_file \<noteq> output_file" "\<not> under output_file input_file"
  by (simp_all add: input_file_def output_file_def under_def)

lemma main_present:
  assumes "path_exists w input_file"
  shows "fst (main read_csv w) =
           fst (write_output (compare_engagement_levels (read_csv (lookup (fs w) input_file)))
                  output_file w) \<and>
         fs (snd (main read_csv w)) =
           fs (snd (write_output (compare_engagement_levels (read_csv (lookup (fs w) input_file)))
                  output_file w))"
proof -
  define df where "df = compare_engagement_levels (read_csv (lookup (fs w) input_file))"
  define w2 where
    "w2 = show_df df (print ''Engagement Level Comparison Across Job Titles:'' (initialize_spark w))"
  have fs2: "fs w2 = fs w"
    by (simp add: w2_def show_df_def print_def initialize_spark_def)
  have load: "load_data read_csv (initialize_spark w) input_file =
                Inr (read_csv (lookup (fs w) input_file))"
    using assms by (simp add: load_data_def initialize_spark_def path_exists_def)
  have main: "main read_csv w =
     (case write_output df output_file w2 of
        (Inl err, w3) \<Rightarrow> (Inl err, w3)
      | (Inr u, w3) \<Rightarrow> (Inr (), spark_stop (print (''Results saved to '' @ output_file) w3)))"
    by (simp add: main_def load Let_def df_def w2_def)
  have "fst (main read_csv w) = fst (write_output df output_file w2) \<and>
        fs (snd (main read_csv w)) = fs (snd (write_output df output_file w2))"
    unfolding main
    by (cases "write_output df output_file w2")
       (auto simp: spark_stop_def print_def split: sum.splits)
  with write_output_cong [OF fs2, of df output_file] show ?thesis
    by (simp add: df_def)
qed

text \<open>
  C8. Running \<open>main\<close> a second time, in the state the first run left, with the same
  reader, leaves the same file system as the first run did, and ends the same way: the
  second write replaces the output of the first by an equal one, in whatever state the
  first run started. (Standard output is not part of this: each run prints again.)
\<close>

theorem main_twice:
  "fs (snd (main read_csv (snd (main read_csv w)))) = fs (snd (main read_csv w)) \<and>
   fst (main read_csv (snd (main read_csv w))) = fst (main read_csv w)"
proof (cases "path_exists w input_file")
  case False
  then have "\<not> path_exists (snd (main read_csv w)) input_file"
    by (simp add: main_missing path_exists_def)
  with False show ?thesis by (simp add: main_missing)
next
  case True
  define df where "df = compare_engagement_levels (read_csv (lookup (fs w) input_file))"
  define w1 where "w1 = snd (main read_csv w)"
  define wo where "wo = snd (write_output df output_file w)"
  from main_present [OF True, of read_csv]
  have r1: "fst (main read_csv w) = fst (write_output df output_file w)"
    and f1: "fs w1 = fs wo"
    by (simp_all add: df_def w1_def wo_def)
  from True have ex: "lookup (fs w) input_file \<noteq> None" by (simp add: path_exists_def)
  from write_output_preserves [OF ex input_not_output, of df]
  have same: "lookup (fs w1) input_file = lookup (fs w) input_file"
    by (simp add: f1 wo_def lookup_def)
  with ex have ex1: "path_exists w1 input_file" by (simp add: path_exists_def)
  from main_present [OF ex1, of read_csv]
  have r2: "fst (main read_csv w1) = fst (write_output df output_file w1)"
    and f2: "fs (snd (main read_csv w1)) = fs (snd (write_output df output_file w1))"
    by (simp_all add: same df_def)
  have "write_output df output_file w = (fst (write_output df output_file w), wo)"
    by (simp add: wo_def)
  then have idem: "write_output df output_file wo = (fst (write_output df output_file w), wo)"
    by (rule write_output_idem)
  from write_output_cong [OF f1, of df output_file] idem
  have "fst (write_output df output_file w1) = fst (write_output df output_file w)"
    and "fs (snd (write_output df output_file w1)) = fs wo"
    by simp_all
  with r1 r2 f1 f2 show ?thesis by (simp add: w1_def)
qed

end
